theory Spec2Isabelle
  imports Main
begin

section \<open>The store: accounts and tweets (models.py, crud/accounts.py, crud/tweets.py)\<close>

text \<open>
  The two tables of \<^verbatim>\<open>models.py\<close> are lists of rows in insertion order. A
  \<^verbatim>\<open>datetime\<close> is an integer count of microseconds. Primary keys are assigned
  by the database: the next key is one more than the largest key in the table.
\<close>

type_synonym datetime = int

record account =
  acc_id :: int
  username :: string

record tweet =
  tweet_id :: int
  account_id :: int
  content :: string
  timestamp :: datetime
  read :: bool

record db =
  accounts_table :: "account list"
  tweets_table :: "tweet list"

definition next_id :: "int list \<Rightarrow> int" where
  "next_id ids = fold max ids 0 + 1"

text \<open>\<^verbatim>\<open>get_account\<close>: the first row whose username matches, or \<^verbatim>\<open>None\<close>.\<close>

definition get_account :: "db \<Rightarrow> string \<Rightarrow> account option" where
  "get_account d name = find (\<lambda>a. username a = name) (accounts_table d)"

text \<open>
  \<^verbatim>\<open>create_account\<close>: add, commit, refresh. The callers modelled here call it only
  after \<^verbatim>\<open>get_account\<close> returned \<^verbatim>\<open>None\<close>, so the unique constraint on the
  username cannot fire.
\<close>

definition create_account :: "db \<Rightarrow> string \<Rightarrow> account \<times> db" where
  "create_account d name =
     (let a = \<lparr>acc_id = next_id (map acc_id (accounts_table d)), username = name\<rparr>
      in (a, d\<lparr>accounts_table := accounts_table d @ [a]\<rparr>))"

text \<open>
  \<^verbatim>\<open>create_tweet\<close>: the timestamp is \<^verbatim>\<open>timestamp or datetime.utcnow()\<close>; the
  current time is the argument \<open>now\<close>. The read flag takes its column default.
\<close>

definition create_tweet :: "db \<Rightarrow> account \<Rightarrow> string \<Rightarrow> datetime option \<Rightarrow> datetime \<Rightarrow> tweet \<times> db" where
  "create_tweet d a c ts now =
     (let t = \<lparr>tweet_id = next_id (map tweet_id (tweets_table d)),
               account_id = acc_id a,
               content = c,
               timestamp = (case ts of Some v \<Rightarrow> v | None \<Rightarrow> now),
               read = False\<rparr>
      in (t, d\<lparr>tweets_table := tweets_table d @ [t]\<rparr>))"

text \<open>\<^verbatim>\<open>tweet_exists\<close>: is there a row with this account id and this content.\<close>

definition tweet_exists :: "db \<Rightarrow> account \<Rightarrow> string \<Rightarrow> bool" where
  "tweet_exists d a c =
     (find (\<lambda>t. account_id t = acc_id a \<and> content t = c) (tweets_table d) \<noteq> None)"

text \<open>
  \<^verbatim>\<open>update_read_status\<close>: look the row up by primary key; when there is none,
  return \<^verbatim>\<open>None\<close> without committing anything; otherwise set the flag and commit,
  which updates the rows with that key. The id is a Python integer of any size, the
  column is an \<^verbatim>\<open>Integer\<close> of the SQLite engine of \<^verbatim>\<open>database.py\<close>: an id outside
  the signed 64-bit range cannot be bound to the query, and the lookup raises
  \<^verbatim>\<open>OverflowError\<close> before any row is read.
\<close>

datatype db_error = OverflowError

definition in_int64 :: "int \<Rightarrow> bool" where
  "in_int64 i = (- 9223372036854775808 \<le> i \<and> i \<le> 9223372036854775807)"

definition update_read_status :: "db \<Rightarrow> int \<Rightarrow> bool \<Rightarrow> (db_error + tweet option) \<times> db" where
  "update_read_status d tid r =
     (if \<not> in_int64 tid then (Inl OverflowError, d)
      else
        (case find (\<lambda>t. tweet_id t = tid) (tweets_table d) of
           None \<Rightarrow> (Inr None, d)
         | Some t \<Rightarrow>
             (Inr (Some (t\<lparr>read := r\<rparr>)),
              d\<lparr>tweets_table := map (\<lambda>x. if tweet_id x = tid then x\<lparr>read := r\<rparr> else x)
                                    (tweets_table d)\<rparr>)))"

section \<open>Ingestion (scraper/service.py, \<^verbatim>\<open>fetch_and_store_tweets\<close>)\<close>

text \<open>
  One scraped item is the dictionary \<^verbatim>\<open>{"content": ..., "timestamp": ...}\<close>.
  The failures of one crawl are values of \<open>error\<close>: the cookie file is absent, it is
  not JSON, it has the wrong shape, the second navigation timed out, the page is a
  login or challenge page, no tweet container appeared.
\<close>

record item =
  item_content :: string
  item_timestamp :: datetime

datatype error =
  CredentialsMissing | JSONDecodeError | CredentialsMalformed
  | NavigationTimeout | AuthChallenge | NoContentFound

text \<open>
  The \<^verbatim>\<open>for t in new\<close> loop of \<^verbatim>\<open>runner\<close>: every item is checked against the
  store as it is at that moment, and created when absent.
\<close>

fun store_new :: "db \<Rightarrow> account \<Rightarrow> item list \<Rightarrow> nat \<Rightarrow> datetime \<Rightarrow> nat \<times> db" where
  "store_new d a [] count now = (count, d)"
| "store_new d a (t # ts) count now =
     (if \<not> tweet_exists d a (item_content t)
      then store_new (snd (create_tweet d a (item_content t) (Some (item_timestamp t)) now))
             a ts (count + 1) now
      else store_new d a ts count now)"

text \<open>
  \<^verbatim>\<open>runner\<close>, from the point where \<^verbatim>\<open>scrape_tweets\<close> has answered: its answer
  is the argument \<open>scraped\<close>. A failed scrape propagates and nothing is stored.
\<close>

definition runner :: "db \<Rightarrow> string \<Rightarrow> error + item list \<Rightarrow> datetime \<Rightarrow> (error + nat) \<times> db" where
  "runner d name scraped now =
     (case scraped of
        Inl e \<Rightarrow> (Inl e, d)
      | Inr new \<Rightarrow>
          (let (a, d1) = (case get_account d name of
                            Some a \<Rightarrow> (a, d)
                          | None \<Rightarrow> create_account d name);
               (count, d2) = store_new d1 a new 0 now
           in (Inr count, d2)))"

section \<open>The feed extractor (scraper/service.py and scraper/fetch.py, \<^verbatim>\<open>scrape_tweets\<close>)\<close>

subsection \<open>Files\<close>

text \<open>
  Paths are file names inside \<^verbatim>\<open>THIS_DIR\<close>. A file holds a text that
  \<^verbatim>\<open>json.load\<close> parses to a value (and \<^verbatim>\<open>json.dump\<close> writes such a text), an
  HTML snapshot, a screenshot, or some other text. The world of one crawl is the
  directory, the list of paths written so far, and the state of the browser session.
\<close>

datatype json =
  JNull | JBool bool | JNum int | JStr string | JArr "json list" | JObj "(string \<times> json) list"

datatype fdata = JsonText json | HtmlText string | Screenshot | OtherText string

record world =
  files :: "string \<Rightarrow> fdata option"
  written :: "string list"
  playwright_running :: bool
  browser_open :: bool

definition COOKIES_FILE :: string where
  "COOKIES_FILE = ''auth.json''"

definition write_file :: "string \<Rightarrow> fdata \<Rightarrow> world \<Rightarrow> world" where
  "write_file path data w = w\<lparr>files := (files w)(path \<mapsto> data), written := written w @ [path]\<rparr>"

text \<open>
  Step 1 of \<^verbatim>\<open>scrape_tweets\<close>. \<open>check_data\<close> is the \<^verbatim>\<open>isinstance\<close> chain:
  a list is wrapped and must be written back, a dictionary with the key
  \<^verbatim>\<open>cookies\<close> is accepted as it is, anything else is refused.
\<close>

fun check_data :: "json \<Rightarrow> error + json option" where
  "check_data (JArr cs) = Inr (Some (JObj [(''cookies'', JArr cs), (''origins'', JArr [])]))"
| "check_data (JObj kvs) =
     (if ''cookies'' \<in> set (map fst kvs) then Inr None else Inl CredentialsMalformed)"
| "check_data v = Inl CredentialsMalformed"

fun json_load :: "fdata \<Rightarrow> error + json" where
  "json_load (JsonText v) = Inr v"
| "json_load f = Inl JSONDecodeError"

definition load_credentials :: "world \<Rightarrow> (error + unit) \<times> world" where
  "load_credentials w =
     (case files w COOKIES_FILE of
        None \<Rightarrow> (Inl CredentialsMissing, w)
      | Some f \<Rightarrow>
          (case json_load f of
             Inl e \<Rightarrow> (Inl e, w)
           | Inr v \<Rightarrow>
               (case check_data v of
                  Inl e \<Rightarrow> (Inl e, w)
                | Inr None \<Rightarrow> (Inr (), w)
                | Inr (Some v') \<Rightarrow> (Inr (), write_file COOKIES_FILE (JsonText v') w))))"

subsection \<open>The page\<close>

text \<open>
  What the browser shows is outside the program; one crawl observes it through the
  calls below. \<open>goto1_ok\<close> and \<open>goto2_ok\<close> say whether the first and the second
  \<^verbatim>\<open>page.goto\<close> return (otherwise they raise the timeout), \<open>selector_found\<close>
  whether \<^verbatim>\<open>wait_for_selector\<close> returns. \<open>blocks_after k\<close> is the answer of
  \<^verbatim>\<open>query_selector_all\<close> and \<open>height_after k\<close> the scroll height once \<open>k\<close>
  scrolls have been done. \<open>fromisoformat\<close> is \<^verbatim>\<open>datetime.fromisoformat\<close>, with
  \<open>None\<close> where it raises.

  A tweet container is stale (every call on it raises) or it answers the three
  queries: the text of \<^verbatim>\<open>[data-testid='tweetText']\<close>, the text of
  \<^verbatim>\<open>div[lang]\<close>, and the \<^verbatim>\<open>datetime\<close> attribute of \<^verbatim>\<open>time\<close> (\<open>None\<close>:
  no such element; \<open>Some None\<close>: the element has no such attribute).
\<close>

datatype block = Stale | Article "string option" "string option" "string option option"

record page_env =
  goto1_ok :: bool
  goto2_ok :: bool
  final_url :: string
  page_content :: string
  selector_found :: bool
  blocks_after :: "nat \<Rightarrow> block list"
  height_after :: "nat \<Rightarrow> int"
  fromisoformat :: "string \<Rightarrow> datetime option"

text \<open>
  \<^verbatim>\<open>str.strip()\<close> removes white space at both ends; \<^verbatim>\<open>replace("Z", "+00:00")\<close>
  rewrites every \<^verbatim>\<open>Z\<close>; \<^verbatim>\<open>sub in s\<close> looks for a contiguous occurrence.
\<close>

definition isspace :: "char \<Rightarrow> bool" where
  "isspace c =
     (let n = (of_char c :: nat)
      in (9 \<le> n \<and> n \<le> 13) \<or> (28 \<le> n \<and> n \<le> 32) \<or> n = 133 \<or> n = 160)"

definition strip :: "string \<Rightarrow> string" where
  "strip s = rev (dropWhile isspace (rev (dropWhile isspace s)))"

definition replace_Z :: "string \<Rightarrow> string" where
  "replace_Z s = concat (map (\<lambda>c. if c = CHR ''Z'' then ''+00:00'' else [c]) s)"

fun contains :: "string \<Rightarrow> string \<Rightarrow> bool" where
  "contains sub [] = (sub = [])"
| "contains sub (c # cs) = (take (length sub) (c # cs) = sub \<or> contains sub cs)"

subsection \<open>One container\<close>

text \<open>
  The body of the \<^verbatim>\<open>try\<close>: an exception (\<open>Raised\<close>) skips the container, a
  container without text or without time gives nothing, otherwise the stripped text and
  the parsed time are found.
\<close>

datatype extraction = Raised | Nothing | Found string datetime

fun extract_block :: "(string \<Rightarrow> datetime option) \<Rightarrow> block \<Rightarrow> extraction" where
  "extract_block parse_ts Stale = Raised"
| "extract_block parse_ts (Article primary fallback tm) =
     (case (case primary of Some x \<Rightarrow> Some x | None \<Rightarrow> fallback) of
        None \<Rightarrow> Nothing
      | Some txt \<Rightarrow>
          (case tm of
             None \<Rightarrow> Nothing
           | Some attr \<Rightarrow>
               (case attr of
                  None \<Rightarrow> Raised
                | Some ts_str \<Rightarrow>
                    (case parse_ts (replace_Z ts_str) of
                       None \<Rightarrow> Raised
                     | Some ts \<Rightarrow> Found (strip txt) ts))))"

text \<open>
  The \<^verbatim>\<open>for block in tweet_blocks\<close> loop. \<^verbatim>\<open>continue\<close> in the handler skips the
  length test; the \<^verbatim>\<open>break\<close> leaves the loop with what has been collected.
\<close>

fun scan_blocks ::
  "(string \<Rightarrow> datetime option) \<Rightarrow> int \<Rightarrow> block list \<Rightarrow> item list \<Rightarrow> string set
     \<Rightarrow> item list \<times> string set" where
  "scan_blocks parse_ts max_tweets [] tweets seen_texts = (tweets, seen_texts)"
| "scan_blocks parse_ts max_tweets (b # bs) tweets seen_texts =
     (case extract_block parse_ts b of
        Raised \<Rightarrow> scan_blocks parse_ts max_tweets bs tweets seen_texts
      | Nothing \<Rightarrow>
          (if int (length tweets) \<ge> max_tweets then (tweets, seen_texts)
           else scan_blocks parse_ts max_tweets bs tweets seen_texts)
      | Found c ts \<Rightarrow>
          (let (tweets', seen') =
                 (if c \<notin> seen_texts
                  then (tweets @ [\<lparr>item_content = c, item_timestamp = ts\<rparr>], insert c seen_texts)
                  else (tweets, seen_texts))
           in if int (length tweets') \<ge> max_tweets then (tweets', seen')
              else scan_blocks parse_ts max_tweets bs tweets' seen'))"

subsection \<open>The pagination loop\<close>

text \<open>
  The \<^verbatim>\<open>while len(tweets) < max_tweets\<close> loop may run for ever (a page that keeps
  growing without new tweets), so the model counts iterations down from \<open>fuel\<close> and
  answers \<open>None\<close> when they do not suffice. \<open>k\<close> is the number of scrolls done.
\<close>

fun pagination_loop ::
  "nat \<Rightarrow> page_env \<Rightarrow> int \<Rightarrow> nat \<Rightarrow> int \<Rightarrow> item list \<Rightarrow> string set \<Rightarrow> item list option" where
  "pagination_loop 0 env max_tweets k last_height tweets seen_texts = None"
| "pagination_loop (Suc fuel) env max_tweets k last_height tweets seen_texts =
     (if \<not> int (length tweets) < max_tweets then Some tweets
      else
        (let (tweets', seen') =
               scan_blocks (fromisoformat env) max_tweets (blocks_after env k) tweets seen_texts
         in if int (length tweets') \<ge> max_tweets then Some tweets'
            else
              (let new_height = height_after env (Suc k)
               in if new_height = last_height then Some tweets'
                  else pagination_loop fuel env max_tweets (Suc k) new_height tweets' seen')))"

subsection \<open>The session\<close>

text \<open>
  Entering \<^verbatim>\<open>async with async_playwright()\<close> starts the driver and the browser is
  launched in it; \<^verbatim>\<open>browser.close()\<close> closes the browser; leaving the
  \<^verbatim>\<open>async with\<close> block, by return or by exception, stops the driver. The flag
  \<open>browser_open\<close> records what the source itself does to the browser: it is set by
  the launch and cleared by \<^verbatim>\<open>browser.close()\<close> only. What stopping the driver
  does to a browser that nobody closed is the library's business and is not part of the
  model.
\<close>

definition open_session :: "world \<Rightarrow> world" where
  "open_session w = w\<lparr>playwright_running := True, browser_open := True\<rparr>"

definition browser_close :: "world \<Rightarrow> world" where
  "browser_close w = w\<lparr>browser_open := False\<rparr>"

definition playwright_exit :: "world \<Rightarrow> world" where
  "playwright_exit w = w\<lparr>playwright_running := False\<rparr>"

text \<open>Steps 4 to 7: what runs inside the \<^verbatim>\<open>async with\<close> block once the page is open.\<close>

definition session_body ::
  "nat \<Rightarrow> page_env \<Rightarrow> string \<Rightarrow> int \<Rightarrow> world \<Rightarrow> ((error + item list) \<times> world) option" where
  "session_body fuel env name max_tweets w =
     (if \<not> goto1_ok env \<and> \<not> goto2_ok env then Some (Inl NavigationTimeout, w)
      else if contains ''login'' (final_url env) \<or> contains ''challenge'' (final_url env) then
        (let w1 = write_file (name @ ''_redirect.html'') (HtmlText (page_content env)) w;
             w2 = write_file (name @ ''_redirect.png'') Screenshot w1
         in Some (Inl AuthChallenge, browser_close w2))
      else if \<not> selector_found env then
        (let w1 = write_file (name @ ''_no_tweets.html'') (HtmlText (page_content env)) w;
             w2 = write_file (name @ ''_no_tweets.png'') Screenshot w1
         in Some (Inl NoContentFound, browser_close w2))
      else
        (case pagination_loop fuel env max_tweets 0 (height_after env 0) [] {} of
           None \<Rightarrow> None
         | Some tweets \<Rightarrow> Some (Inr tweets, browser_close w)))"

definition scrape_tweets ::
  "nat \<Rightarrow> page_env \<Rightarrow> string \<Rightarrow> int \<Rightarrow> world \<Rightarrow> ((error + item list) \<times> world) option" where
  "scrape_tweets fuel env name max_tweets w =
     (case load_credentials w of
        (Inl e, w') \<Rightarrow> Some (Inl e, w')
      | (Inr u, w') \<Rightarrow>
          (case session_body fuel env name max_tweets (open_session w') of
             None \<Rightarrow> None
           | Some (r, w'') \<Rightarrow> Some (r, playwright_exit w'')))"

subsection \<open>Scrape, then store\<close>

text \<open>
  \<^verbatim>\<open>fetch_and_store_tweets\<close>: run the scrape, then reconcile its answer with the
  store. Closing the database session changes nothing.
\<close>

definition fetch_and_store_tweets ::
  "nat \<Rightarrow> page_env \<Rightarrow> string \<Rightarrow> int \<Rightarrow> world \<Rightarrow> db \<Rightarrow> datetime
     \<Rightarrow> ((error + nat) \<times> world \<times> db) option" where
  "fetch_and_store_tweets fuel env name limit w d now =
     (case scrape_tweets fuel env name limit w of
        None \<Rightarrow> None
      | Some (r, w') \<Rightarrow> (let (c, d') = runner d name r now in Some (c, w', d')))"

section \<open>The cycle (main.py, \<^verbatim>\<open>auto_fetch_all\<close> and \<^verbatim>\<open>scrape_accounts_sequentially\<close>)\<close>

text \<open>
  The controller state is what the two functions change: the calls
  \<^verbatim>\<open>executor.submit(scrape_account_threadsafe, username)\<close> made so far, each with
  the time in seconds at which it was made, and the job store of the scheduler. A job
  \<^verbatim>\<open>staggered_scrape_{index}\<close> holds the list and the index its callback closes over,
  the seconds of its interval trigger and the time of its next run. An interval
  trigger first fires one interval after the job is added and then again every
  interval; \<^verbatim>\<open>replace_existing=True\<close> replaces a job with the same id.
\<close>

record job =
  job_index :: nat
  job_usernames :: "string list"
  job_seconds :: int
  job_next_run :: int

record controller =
  submitted :: "(int \<times> string) list"
  jobs :: "job list"

definition submit :: "int \<Rightarrow> string \<Rightarrow> controller \<Rightarrow> controller" where
  "submit now name c = c\<lparr>submitted := submitted c @ [(now, name)]\<rparr>"

definition add_job :: "job \<Rightarrow> controller \<Rightarrow> controller" where
  "add_job j c = c\<lparr>jobs := filter (\<lambda>x. job_index x \<noteq> job_index j) (jobs c) @ [j]\<rparr>"

definition scrape_accounts_sequentially ::
  "string list \<Rightarrow> nat \<Rightarrow> int \<Rightarrow> controller \<Rightarrow> controller" where
  "scrape_accounts_sequentially usernames index now c =
     (if index \<ge> length usernames then c
      else add_job \<lparr>job_index = index, job_usernames = usernames,
                    job_seconds = 60, job_next_run = now + 60\<rparr>
             (submit now (usernames ! index) c))"

definition auto_fetch_all :: "db \<Rightarrow> int \<Rightarrow> controller \<Rightarrow> controller" where
  "auto_fetch_all d now c =
     (let usernames = map username (accounts_table d)
      in if usernames = [] then c
         else scrape_accounts_sequentially usernames 1 now (submit now (usernames ! 0) c))"

text \<open>
  The scheduler at time \<open>now\<close>: a job that is due gets its next run time and its
  callback \<^verbatim>\<open>lambda: scrape_accounts_sequentially(usernames, index + 1)\<close> runs.
  \<open>run_pending\<close> does so for the jobs in the store, \<open>run_scheduler\<close> at each of
  the given times in turn.
\<close>

definition run_job :: "nat \<Rightarrow> int \<Rightarrow> controller \<Rightarrow> controller" where
  "run_job idx now c =
     (case find (\<lambda>j. job_index j = idx) (jobs c) of
        None \<Rightarrow> c
      | Some j \<Rightarrow>
          (if now < job_next_run j then c
           else scrape_accounts_sequentially (job_usernames j) (job_index j + 1) now
                  (c\<lparr>jobs := map (\<lambda>x. if job_index x = idx
                                        then x\<lparr>job_next_run := job_next_run x + job_seconds x\<rparr>
                                        else x) (jobs c)\<rparr>)))"

definition run_pending :: "int \<Rightarrow> controller \<Rightarrow> controller" where
  "run_pending now c = fold (\<lambda>j. run_job (job_index j) now) (jobs c) c"

definition run_scheduler :: "int list \<Rightarrow> controller \<Rightarrow> controller" where
  "run_scheduler ticks c = fold run_pending ticks c"

section \<open>Properties of the store\<close>

text \<open>
  C10, as the code has it. Marking a tweet read or unread with an id in the signed 64-bit
  range: for an id that no row has, \<^verbatim>\<open>update_read_status\<close> returns \<^verbatim>\<open>None\<close> and
  the store is the one it was given; for an id that is present it returns that tweet with
  the flag set, and the new store has the same accounts and the same rows, except that
  the row with this id has its read flag set to the given value (every other field of it
  is kept). With an id outside that range the call raises \<^verbatim>\<open>OverflowError\<close> and the
  store is the one it was given.
\<close>

theorem update_read_status_in_range:
  "(in_int64 tid \<and> tid \<notin> tweet_id ` set (tweets_table d) \<longrightarrow>
        update_read_status d tid r = (Inr None, d))
   \<and> (in_int64 tid \<and> tid \<in> tweet_id ` set (tweets_table d) \<longrightarrow>
        (\<exists>t d'. update_read_status d tid r = (Inr (Some t), d')
           \<and> tweet_id t = tid \<and> read t = r
           \<and> accounts_table d' = accounts_table d
           \<and> length (tweets_table d') = length (tweets_table d)
           \<and> (\<forall>i < length (tweets_table d).
                 tweets_table d' ! i =
                   (if tweet_id (tweets_table d ! i) = tid
                    then (tweets_table d ! i)\<lparr>read := r\<rparr>
                    else tweets_table d ! i))))
   \<and> (\<not> in_int64 tid \<longrightarrow> update_read_status d tid r = (Inl OverflowError, d))"
proof (cases "find (\<lambda>t. tweet_id t = tid) (tweets_table d)")
  case None
  then have "tid \<notin> tweet_id ` set (tweets_table d)"
    by (auto simp: find_None_iff)
  with None show ?thesis
    by (simp add: update_read_status_def)
next
  case (Some t)
  then have "tweet_id t = tid" "t \<in> set (tweets_table d)"
    by (auto simp: find_Some_iff)
  with Some show ?thesis
    by (auto simp: update_read_status_def)
qed

theorem update_read_status_in_range_witness:
  "update_read_status
      \<lparr>accounts_table = [\<lparr>acc_id = 1, username = ''nasa''\<rparr>],
       tweets_table = [\<lparr>tweet_id = 1, account_id = 1, content = ''a'', timestamp = 5, read = False\<rparr>,
                       \<lparr>tweet_id = 2, account_id = 1, content = ''b'', timestamp = 6, read = False\<rparr>]\<rparr>
      3 True
    = (Inr None,
       \<lparr>accounts_table = [\<lparr>acc_id = 1, username = ''nasa''\<rparr>],
        tweets_table = [\<lparr>tweet_id = 1, account_id = 1, content = ''a'', timestamp = 5, read = False\<rparr>,
                        \<lparr>tweet_id = 2, account_id = 1, content = ''b'', timestamp = 6, read = False\<rparr>]\<rparr>)
   \<and> (\<exists>t d'. update_read_status
      \<lparr>accounts_table = [\<lparr>acc_id = 1, username = ''nasa''\<rparr>],
       tweets_table = [\<lparr>tweet_id = 1, account_id = 1, content = ''a'', timestamp = 5, read = False\<rparr>,
                       \<lparr>tweet_id = 2, account_id = 1, content = ''b'', timestamp = 6, read = False\<rparr>]\<rparr>
      2 True = (Inr (Some t), d') \<and> tweet_id t = 2 \<and> read t
       \<and> accounts_table d' = [\<lparr>acc_id = 1, username = ''nasa''\<rparr>]
       \<and> tweets_table d' ! 0 = \<lparr>tweet_id = 1, account_id = 1, content = ''a'', timestamp = 5, read = False\<rparr>
       \<and> tweets_table d' ! 1 = \<lparr>tweet_id = 2, account_id = 1, content = ''b'', timestamp = 6, read = True\<rparr>)
   \<and> update_read_status
      \<lparr>accounts_table = [\<lparr>acc_id = 1, username = ''nasa''\<rparr>],
       tweets_table = [\<lparr>tweet_id = 1, account_id = 1, content = ''a'', timestamp = 5, read = False\<rparr>,
                       \<lparr>tweet_id = 2, account_id = 1, content = ''b'', timestamp = 6, read = False\<rparr>]\<rparr>
      (- 9223372036854775809) False
    = (Inl OverflowError,
       \<lparr>accounts_table = [\<lparr>acc_id = 1, username = ''nasa''\<rparr>],
        tweets_table = [\<lparr>tweet_id = 1, account_id = 1, content = ''a'', timestamp = 5, read = False\<rparr>,
                        \<lparr>tweet_id = 2, account_id = 1, content = ''b'', timestamp = 6, read = False\<rparr>]\<rparr>)"
  (is "update_read_status ?D 3 True = (Inr None, ?D) \<and> ?B
       \<and> update_read_status ?D ?low False = (Inl OverflowError, ?D)")
proof -
  have absent: "in_int64 3 \<and> 3 \<notin> tweet_id ` set (tweets_table ?D)"
    by (simp add: in_int64_def)
  have present: "in_int64 2 \<and> 2 \<in> tweet_id ` set (tweets_table ?D)"
    by (simp add: in_int64_def)
  have outside: "\<not> in_int64 ?low"
    by (simp add: in_int64_def)
  have A: "update_read_status ?D 3 True = (Inr None, ?D)"
    using update_read_status_in_range [of 3 ?D True] absent by blast
  have C: "update_read_status ?D ?low False = (Inl OverflowError, ?D)"
    using update_read_status_in_range [of ?low ?D False] outside by blast
  obtain t d' where
    u: "update_read_status ?D 2 True = (Inr (Some t), d')" "tweet_id t = 2" "read t = True"
      "accounts_table d' = accounts_table ?D"
    and rows: "\<forall>i < length (tweets_table ?D).
                 tweets_table d' ! i =
                   (if tweet_id (tweets_table ?D ! i) = 2
                    then (tweets_table ?D ! i)\<lparr>read := True\<rparr>
                    else tweets_table ?D ! i)"
    using update_read_status_in_range [of 2 ?D True] present by blast
  from rows have "tweets_table d' ! 0 = \<lparr>tweet_id = 1, account_id = 1, content = ''a'', timestamp = 5, read = False\<rparr>"
    and "tweets_table d' ! 1 = \<lparr>tweet_id = 2, account_id = 1, content = ''b'', timestamp = 6, read = True\<rparr>"
    by simp_all
  with u have ?B by auto
  with A C show ?thesis by blast
qed

text \<open>
  The id \<open>2^63\<close>, which the route \<^verbatim>\<open>/tweet/<int:tweet_id>/read\<close> passes on unchanged,
  is in no row of the store, and the call does not return \<^verbatim>\<open>None\<close>: it raises.
\<close>

theorem update_read_status_overflow:
  "9223372036854775808 \<notin> tweet_id ` set (tweets_table
      \<lparr>accounts_table = [\<lparr>acc_id = 1, username = ''nasa''\<rparr>],
       tweets_table = [\<lparr>tweet_id = 1, account_id = 1, content = ''a'', timestamp = 5, read = False\<rparr>]\<rparr>)
   \<and> fst (update_read_status
      \<lparr>accounts_table = [\<lparr>acc_id = 1, username = ''nasa''\<rparr>],
       tweets_table = [\<lparr>tweet_id = 1, account_id = 1, content = ''a'', timestamp = 5, read = False\<rparr>]\<rparr>
      9223372036854775808 True) = Inl OverflowError
   \<and> fst (update_read_status
      \<lparr>accounts_table = [\<lparr>acc_id = 1, username = ''nasa''\<rparr>],
       tweets_table = [\<lparr>tweet_id = 1, account_id = 1, content = ''a'', timestamp = 5, read = False\<rparr>]\<rparr>
      9223372036854775808 True) \<noteq> Inr None"
  by (simp add: update_read_status_def in_int64_def)

section \<open>Properties of the ingestion\<close>


lemma tweet_exists_iff:
  "tweet_exists d a c \<longleftrightarrow> (\<exists>t\<in>set (tweets_table d). account_id t = acc_id a \<and> content t = c)"
  by (auto simp: tweet_exists_def find_None_iff)

lemma create_tweet_snd:
  "snd (create_tweet d a c ts now) =
     d\<lparr>tweets_table := tweets_table d @ [fst (create_tweet d a c ts now)]\<rparr>"
  by (simp add: create_tweet_def Let_def)

lemma create_tweet_fst:
  "account_id (fst (create_tweet d a c ts now)) = acc_id a"
  "content (fst (create_tweet d a c ts now)) = c"
  by (simp_all add: create_tweet_def Let_def)

lemma store_new_added:
  "\<exists>added. store_new d a batch count now
             = (count + length added, d\<lparr>tweets_table := tweets_table d @ added\<rparr>)
     \<and> distinct (map content added)
     \<and> (\<forall>t\<in>set added. account_id t = acc_id a \<and> content t \<in> item_content ` set batch
            \<and> \<not> tweet_exists d a (content t))
     \<and> (\<forall>x\<in>set batch. tweet_exists (d\<lparr>tweets_table := tweets_table d @ added\<rparr>) a (item_content x))"
proof (induction batch arbitrary: d count)
  case Nil
  show ?case by (rule exI [of _ "[]"]) simp
next
  case (Cons x xs)
  show ?case
  proof (cases "tweet_exists d a (item_content x)")
    case True
    from Cons.IH [of d count] obtain added where
      A: "store_new d a xs count now = (count + length added, d\<lparr>tweets_table := tweets_table d @ added\<rparr>)"
      and B: "distinct (map content added)"
      and C: "\<forall>t\<in>set added. account_id t = acc_id a \<and> content t \<in> item_content ` set xs \<and> \<not> tweet_exists d a (content t)"
      and D: "\<forall>x\<in>set xs. tweet_exists (d\<lparr>tweets_table := tweets_table d @ added\<rparr>) a (item_content x)"
      by blast
    have E: "tweet_exists (d\<lparr>tweets_table := tweets_table d @ added\<rparr>) a (item_content x)"
      using True by (auto simp: tweet_exists_iff)
    show ?thesis
      by (rule exI [of _ added]) (use True A B C D E in auto)
  next
    case False
    define n where "n = fst (create_tweet d a (item_content x) (Some (item_timestamp x)) now)"
    define d1 where "d1 = d\<lparr>tweets_table := tweets_table d @ [n]\<rparr>"
    have d1: "snd (create_tweet d a (item_content x) (Some (item_timestamp x)) now) = d1"
      unfolding d1_def n_def by (rule create_tweet_snd)
    have n: "account_id n = acc_id a" "content n = item_content x"
      unfolding n_def by (rule create_tweet_fst)+
    from Cons.IH [of d1 "count + 1"] obtain added where
      A: "store_new d1 a xs (count + 1) now = (count + 1 + length added, d1\<lparr>tweets_table := tweets_table d1 @ added\<rparr>)"
      and B: "distinct (map content added)"
      and C: "\<forall>t\<in>set added. account_id t = acc_id a \<and> content t \<in> item_content ` set xs \<and> \<not> tweet_exists d1 a (content t)"
      and D: "\<forall>x\<in>set xs. tweet_exists (d1\<lparr>tweets_table := tweets_table d1 @ added\<rparr>) a (item_content x)"
      by blast
    have ex1: "tweet_exists d1 a (item_content x)"
      using n by (auto simp: tweet_exists_iff d1_def)
    have mono: "\<And>c. tweet_exists d a c \<Longrightarrow> tweet_exists d1 a c"
      by (auto simp: tweet_exists_iff d1_def)
    have eq: "d1\<lparr>tweets_table := tweets_table d1 @ added\<rparr> = d\<lparr>tweets_table := tweets_table d @ (n # added)\<rparr>"
      by (simp add: d1_def)
    have S: "store_new d a (x # xs) count now = (count + length (n # added), d\<lparr>tweets_table := tweets_table d @ (n # added)\<rparr>)"
      using False A by (simp add: d1 eq)
    have B': "distinct (map content (n # added))"
      using B C ex1 n by auto
    have C': "\<forall>t\<in>set (n # added). account_id t = acc_id a \<and> content t \<in> item_content ` set (x # xs) \<and> \<not> tweet_exists d a (content t)"
      using C n False mono by auto
    have D': "\<forall>y\<in>set (x # xs). tweet_exists (d\<lparr>tweets_table := tweets_table d @ (n # added)\<rparr>) a (item_content y)"
      using D n unfolding eq by (auto simp: tweet_exists_iff)
    show ?thesis
      by (rule exI [of _ "n # added"]) (use S B' C' D' in blast)
  qed
qed

lemma store_new_present:
  "\<forall>x\<in>set batch. tweet_exists d a (item_content x) \<Longrightarrow> store_new d a batch count now = (count, d)"
  by (induction batch arbitrary: count) auto

lemma find_snoc:
  "find P (xs @ [y]) = (case find P xs of None \<Rightarrow> (if P y then Some y else None) | Some x \<Rightarrow> Some x)"
  by (induction xs) auto

lemma get_account_after_create:
  "get_account d name = None \<Longrightarrow>
   get_account (snd (create_account d name)) name = Some (fst (create_account d name))"
  by (simp add: get_account_def create_account_def Let_def find_snoc)

text \<open>
  C2. Ingesting the same batch twice for the same username: the second run reports zero
  new items and leaves the store as the first run left it. The rows the first run added
  all belong to the resolved account, have pairwise different contents taken from the
  batch, and none of them was in the store before: each (account, content) pair is
  persisted at most once.
\<close>

theorem ingestion_idempotent:
  assumes first: "runner d name (Inr batch) now = (r1, d1)"
    and second: "runner d1 name (Inr batch) now' = (r2, d2)"
  shows "r2 = Inr 0 \<and> d2 = d1
     \<and> (\<exists>a added. r1 = Inr (length added)
           \<and> tweets_table d1 = tweets_table d @ added
           \<and> distinct (map content added)
           \<and> (\<forall>t\<in>set added. account_id t = acc_id a
                 \<and> content t \<in> item_content ` set batch
                 \<and> \<not> tweet_exists d a (content t))
           \<and> get_account d1 name = Some a)"
proof -
  define p where "p = (case get_account d name of Some a \<Rightarrow> (a, d) | None \<Rightarrow> create_account d name)"
  define a where "a = fst p"
  define d0 where "d0 = snd p"
  have p: "p = (a, d0)" by (simp add: a_def d0_def)
  have tw0: "tweets_table d0 = tweets_table d"
    by (auto simp: d0_def p_def create_account_def Let_def split: option.splits)
  have acc0: "get_account d0 name = Some a"
  proof (cases "get_account d name")
    case None
    then show ?thesis using get_account_after_create [OF None]
      by (simp add: a_def d0_def p_def)
  next
    case (Some b)
    then show ?thesis by (simp add: a_def d0_def p_def)
  qed
  obtain added where
    A: "store_new d0 a batch 0 now = (0 + length added, d0\<lparr>tweets_table := tweets_table d0 @ added\<rparr>)"
    and B: "distinct (map content added)"
    and C: "\<forall>t\<in>set added. account_id t = acc_id a \<and> content t \<in> item_content ` set batch \<and> \<not> tweet_exists d0 a (content t)"
    and D: "\<forall>x\<in>set batch. tweet_exists (d0\<lparr>tweets_table := tweets_table d0 @ added\<rparr>) a (item_content x)"
    using store_new_added [of d0 a batch 0 now] by blast
  have r1: "r1 = Inr (length added)" and d1: "d1 = d0\<lparr>tweets_table := tweets_table d0 @ added\<rparr>"
    using first A p unfolding runner_def p_def [symmetric] by (auto simp: Let_def)
  have acc1: "get_account d1 name = Some a"
    using acc0 by (simp add: d1 get_account_def)
  have D1: "\<forall>x\<in>set batch. tweet_exists d1 a (item_content x)"
    using D by (simp add: d1)
  have "runner d1 name (Inr batch) now' = (Inr 0, d1)"
    using store_new_present [OF D1, of 0 now'] acc1 by (simp add: runner_def)
  with second have "r2 = Inr 0" "d2 = d1" by simp_all
  moreover have "tweets_table d1 = tweets_table d @ added" by (simp add: d1 tw0)
  moreover have "\<forall>t\<in>set added. account_id t = acc_id a \<and> content t \<in> item_content ` set batch \<and> \<not> tweet_exists d a (content t)"
    using C tw0 by (simp add: tweet_exists_def)
  ultimately show ?thesis using r1 B acc1 by blast
qed

theorem ingestion_idempotent_witness:
  "runner
     \<lparr>accounts_table = [\<lparr>acc_id = 1, username = ''nasa''\<rparr>],
      tweets_table = [\<lparr>tweet_id = 1, account_id = 1, content = ''a'', timestamp = 5, read = False\<rparr>]\<rparr>
     ''nasa''
     (Inr [\<lparr>item_content = ''a'', item_timestamp = 5\<rparr>,
           \<lparr>item_content = ''b'', item_timestamp = 7\<rparr>,
           \<lparr>item_content = ''b'', item_timestamp = 8\<rparr>]) 100
    = (Inr 1,
       \<lparr>accounts_table = [\<lparr>acc_id = 1, username = ''nasa''\<rparr>],
        tweets_table = [\<lparr>tweet_id = 1, account_id = 1, content = ''a'', timestamp = 5, read = False\<rparr>,
                        \<lparr>tweet_id = 2, account_id = 1, content = ''b'', timestamp = 7, read = False\<rparr>]\<rparr>)
   \<and> runner
       \<lparr>accounts_table = [\<lparr>acc_id = 1, username = ''nasa''\<rparr>],
        tweets_table = [\<lparr>tweet_id = 1, account_id = 1, content = ''a'', timestamp = 5, read = False\<rparr>,
                        \<lparr>tweet_id = 2, account_id = 1, content = ''b'', timestamp = 7, read = False\<rparr>]\<rparr>
       ''nasa''
       (Inr [\<lparr>item_content = ''a'', item_timestamp = 5\<rparr>,
             \<lparr>item_content = ''b'', item_timestamp = 7\<rparr>,
             \<lparr>item_content = ''b'', item_timestamp = 8\<rparr>]) 200
    = (Inr 0,
       \<lparr>accounts_table = [\<lparr>acc_id = 1, username = ''nasa''\<rparr>],
        tweets_table = [\<lparr>tweet_id = 1, account_id = 1, content = ''a'', timestamp = 5, read = False\<rparr>,
                        \<lparr>tweet_id = 2, account_id = 1, content = ''b'', timestamp = 7, read = False\<rparr>]\<rparr>)"
  (is "runner ?D ''nasa'' (Inr ?B) 100 = (Inr 1, ?D1) \<and> runner ?D1 ''nasa'' (Inr ?B) 200 = (Inr 0, ?D1)")
proof -
  have first: "runner ?D ''nasa'' (Inr ?B) 100 = (Inr 1, ?D1)"
    by (simp add: runner_def get_account_def tweet_exists_def create_tweet_def next_id_def Let_def)
  obtain r2 d2 where second: "runner ?D1 ''nasa'' (Inr ?B) 200 = (r2, d2)"
    by (cases "runner ?D1 ''nasa'' (Inr ?B) 200") blast
  from ingestion_idempotent [OF first second] have "r2 = Inr 0" "d2 = ?D1"
    by blast+
  with first second show ?thesis by simp
qed

section \<open>Properties of the feed extractor\<close>

text \<open>
  The theorems below are about the runs the model describes: the calls whose failure the
  source handles (the two navigations, the wait for the first container, the calls on one
  container) may fail; the other calls on the page return.
\<close>

lemmas run_defs = scrape_tweets_def load_credentials_def COOKIES_FILE_def session_body_def
  open_session_def browser_close_def playwright_exit_def write_file_def Let_def
  strip_def isspace_def replace_Z_def

subsection \<open>In-fetch deduplication\<close>

text \<open>
  The loop invariant: the contents collected so far are pairwise different and
  \<^verbatim>\<open>seen_texts\<close> is exactly the set of them.
\<close>

lemma scan_blocks_inv:
  "scan_blocks p m bs tweets seen = (tweets', seen') \<Longrightarrow>
   distinct (map item_content tweets) \<Longrightarrow> seen = item_content ` set tweets \<Longrightarrow>
   distinct (map item_content tweets') \<and> seen' = item_content ` set tweets'"
proof (induction bs arbitrary: tweets seen)
  case Nil
  then show ?case by auto
next
  case (Cons b bs)
  show ?case
  proof (cases "extract_block p b")
    case Raised
    with Cons show ?thesis by simp
  next
    case Nothing
    with Cons show ?thesis by (auto split: if_splits)
  next
    case (Found c ts)
    show ?thesis
    proof (cases "c \<in> seen")
      case True
      with Found Cons show ?thesis by (auto split: if_splits)
    next
      case False
      let ?t = "tweets @ [\<lparr>item_content = c, item_timestamp = ts\<rparr>]"
      have d: "distinct (map item_content ?t)" and s: "insert c seen = item_content ` set ?t"
        using False Cons.prems(2,3) by auto
      show ?thesis
      proof (cases "int (length ?t) \<ge> m")
        case True
        with Found False Cons.prems(1) have "tweets' = ?t" "seen' = insert c seen"
          by simp_all
        with d s show ?thesis by simp
      next
        case stay: False
        with Found False Cons.prems(1)
        have "scan_blocks p m bs ?t (insert c seen) = (tweets', seen')" by simp
        from Cons.IH [OF this d s] show ?thesis .
      qed
    qed
  qed
qed

lemma pagination_loop_distinct:
  "pagination_loop fuel env m k h tweets seen = Some ts \<Longrightarrow>
   distinct (map item_content tweets) \<Longrightarrow> seen = item_content ` set tweets \<Longrightarrow>
   distinct (map item_content ts)"
proof (induction fuel arbitrary: k h tweets seen)
  case 0
  then show ?case by simp
next
  case (Suc fuel)
  show ?case
  proof (cases "int (length tweets) < m")
    case False
    with Suc.prems show ?thesis by simp
  next
    case True
    obtain tweets' seen' where
      sc: "scan_blocks (fromisoformat env) m (blocks_after env k) tweets seen = (tweets', seen')"
      by (cases "scan_blocks (fromisoformat env) m (blocks_after env k) tweets seen") blast
    from scan_blocks_inv [OF sc Suc.prems(2,3)]
    have inv: "distinct (map item_content tweets')" "seen' = item_content ` set tweets'" by blast+
    show ?thesis
    proof (cases "int (length tweets') \<ge> m \<or> height_after env (Suc k) = h")
      case stop: True
      with Suc.prems(1) True sc have "ts = tweets'" by (auto simp: Let_def split: if_splits)
      with inv show ?thesis by simp
    next
      case go: False
      with Suc.prems(1) True sc
      have "pagination_loop fuel env m (Suc k) (height_after env (Suc k)) tweets' seen' = Some ts"
        by (simp add: Let_def)
      from Suc.IH [OF this inv] show ?thesis .
    qed
  qed
qed

text \<open>
  C3. Whatever the page yields, for every username and every maximum, a list returned by
  \<^verbatim>\<open>scrape_tweets\<close> holds every content string at most once.
\<close>

theorem scrape_tweets_distinct:
  "scrape_tweets fuel env name max_tweets w = Some (Inr ts, w') \<Longrightarrow> distinct (map item_content ts)"
proof -
  assume a: "scrape_tweets fuel env name max_tweets w = Some (Inr ts, w')"
  then obtain w0 w1 where "session_body fuel env name max_tweets w0 = Some (Inr ts, w1)"
    by (auto simp: scrape_tweets_def split: prod.splits sum.splits option.splits)
  then have "pagination_loop fuel env max_tweets 0 (height_after env 0) [] {} = Some ts"
    by (auto simp: session_body_def Let_def split: if_splits option.splits)
  from pagination_loop_distinct [OF this] show ?thesis by simp
qed

theorem scrape_tweets_distinct_witness:
  "\<exists>w'. scrape_tweets (Suc (Suc (Suc 0)))
     \<lparr>goto1_ok = False, goto2_ok = True,
      final_url = ''https://x.com/search?q=from%3Anasa&f=live'',
      page_content = ''<html/>'', selector_found = True,
      blocks_after = (\<lambda>k. if k = 0
         then [Article (Some '' hello '') None (Some (Some ''2024-01-01T00:00:00Z'')),
               Article None (Some ''hello'') (Some (Some ''2024-01-01T00:00:00Z'')),
               Stale,
               Article (Some ''x'') None (Some None),
               Article (Some ''y'') None None]
         else [Article (Some ''hello'') None (Some (Some ''2024-01-01T00:00:00Z'')),
               Article (Some ''world'') None (Some (Some ''2024-01-01T00:00:00Z''))]),
      height_after = (\<lambda>k. if k = 0 then 1000 else 2000),
      fromisoformat = (\<lambda>s. if s = ''2024-01-01T00:00:00+00:00'' then Some 1704067200 else None)\<rparr>
     ''nasa'' 20
     \<lparr>files = [''auth.json'' \<mapsto> JsonText (JObj [(''cookies'', JArr []), (''origins'', JArr [])])],
      written = [], playwright_running = False, browser_open = False\<rparr>
   = Some (Inr [\<lparr>item_content = ''hello'', item_timestamp = 1704067200\<rparr>,
                \<lparr>item_content = ''world'', item_timestamp = 1704067200\<rparr>], w')
   \<and> distinct (map item_content [\<lparr>item_content = ''hello'', item_timestamp = 1704067200\<rparr>,
                                   \<lparr>item_content = ''world'', item_timestamp = 1704067200\<rparr>])"
  (is "\<exists>w'. scrape_tweets ?n ?E ''nasa'' 20 ?W = Some (Inr ?ts, w') \<and> distinct (map item_content ?ts)")
proof -
  have "\<exists>w'. scrape_tweets ?n ?E ''nasa'' 20 ?W = Some (Inr ?ts, w')"
    by (simp add: run_defs)
  then obtain w' where run: "scrape_tweets ?n ?E ''nasa'' 20 ?W = Some (Inr ?ts, w')"
    by blast
  from scrape_tweets_distinct [OF run] have "distinct (map item_content ?ts)" .
  with run show ?thesis by blast
qed

subsection \<open>Termination on a stall\<close>

lemma pagination_loop_more_fuel:
  "pagination_loop fuel env m k h tweets seen = Some ts \<Longrightarrow>
   pagination_loop (fuel + n) env m k h tweets seen = Some ts"
proof (induction fuel arbitrary: k h tweets seen)
  case 0
  then show ?case by simp
next
  case (Suc fuel)
  obtain tweets' seen' where
    sc: "scan_blocks (fromisoformat env) m (blocks_after env k) tweets seen = (tweets', seen')"
    by (cases "scan_blocks (fromisoformat env) m (blocks_after env k) tweets seen") blast
  show ?case
  proof (cases "\<not> int (length tweets) < m \<or> int (length tweets') \<ge> m \<or> height_after env (Suc k) = h")
    case True
    with Suc.prems sc show ?thesis by (auto simp: Let_def split: if_splits)
  next
    case False
    with Suc.prems sc
    have "pagination_loop fuel env m (Suc k) (height_after env (Suc k)) tweets' seen' = Some ts"
      by (simp add: Let_def)
    from Suc.IH [OF this] False sc show ?thesis by (simp add: Let_def)
  qed
qed

lemma pagination_loop_stall:
  "height_after env (Suc k) = height_after env k \<Longrightarrow> i \<le> k \<Longrightarrow> k - i < fuel \<Longrightarrow>
   \<exists>ts. pagination_loop fuel env m i (height_after env i) tweets seen = Some ts"
proof (induction fuel arbitrary: i tweets seen)
  case 0
  then show ?case by simp
next
  case (Suc fuel)
  obtain tweets' seen' where
    sc: "scan_blocks (fromisoformat env) m (blocks_after env i) tweets seen = (tweets', seen')"
    by (cases "scan_blocks (fromisoformat env) m (blocks_after env i) tweets seen") blast
  show ?case
  proof (cases "\<not> int (length tweets) < m \<or> int (length tweets') \<ge> m
                 \<or> height_after env (Suc i) = height_after env i")
    case True
    with sc show ?thesis by (auto simp: Let_def)
  next
    case False
    then have "i \<noteq> k" using Suc.prems(1) by auto
    with Suc.prems have "Suc i \<le> k" "k - Suc i < fuel" by simp_all
    from Suc.IH [OF Suc.prems(1) this] obtain ts where
      "pagination_loop fuel env m (Suc i) (height_after env (Suc i)) tweets' seen' = Some ts"
      by blast
    with False sc show ?thesis by (simp add: Let_def)
  qed
qed

lemma pagination_loop_stall_all_fuel:
  assumes "height_after env (Suc k) = height_after env k"
  shows "\<exists>ts. \<forall>fuel>k. pagination_loop fuel env m 0 (height_after env 0) [] {} = Some ts"
proof -
  from pagination_loop_stall [OF assms, of 0 "Suc k" m "[]" "{}"] obtain ts where
    ts: "pagination_loop (Suc k) env m 0 (height_after env 0) [] {} = Some ts" by auto
  have "pagination_loop fuel env m 0 (height_after env 0) [] {} = Some ts" if "fuel > k" for fuel
  proof -
    from that have "fuel = Suc k + (fuel - Suc k)" by simp
    then show ?thesis using pagination_loop_more_fuel [OF ts, of "fuel - Suc k"] by simp
  qed
  then show ?thesis by blast
qed

text \<open>
  C8. A run that reaches the pagination loop (credentials accepted, a navigation
  succeeded, no login or challenge page, a container appeared), on a page whose height
  after scroll \<open>k + 1\<close> equals its height after scroll \<open>k\<close>: the extractor
  returns a list with any number of iterations above \<open>k\<close>, the same list for all of
  them. And when iteration \<open>k\<close> of the loop is entered with fewer than the maximum and
  its scan still leaves fewer than the maximum, so that the scroll is done, the loop
  returns right there with exactly the items collected up to and including that scan.
\<close>

theorem stall_terminates:
  assumes creds: "fst (load_credentials w) = Inr ()"
    and nav: "goto1_ok env \<or> goto2_ok env"
    and url: "\<not> contains ''login'' (final_url env)" "\<not> contains ''challenge'' (final_url env)"
    and sel: "selector_found env"
    and stall: "height_after env (Suc k) = height_after env k"
  shows "(\<exists>ts w'. \<forall>fuel>k. scrape_tweets fuel env name max_tweets w = Some (Inr ts, w'))
     \<and> (\<forall>fuel tweets seen_texts.
           int (length tweets) < max_tweets \<longrightarrow>
           int (length (fst (scan_blocks (fromisoformat env) max_tweets (blocks_after env k)
                               tweets seen_texts))) < max_tweets \<longrightarrow>
           pagination_loop (Suc fuel) env max_tweets k (height_after env k) tweets seen_texts
             = Some (fst (scan_blocks (fromisoformat env) max_tweets (blocks_after env k)
                            tweets seen_texts)))"
proof
  from pagination_loop_stall_all_fuel [OF stall] obtain ts where
    ts: "\<forall>fuel>k. pagination_loop fuel env max_tweets 0 (height_after env 0) [] {} = Some ts"
    by blast
  obtain w0 where w0: "load_credentials w = (Inr (), w0)"
    using creds by (cases "load_credentials w") auto
  have "\<forall>fuel>k. scrape_tweets fuel env name max_tweets w
          = Some (Inr ts, playwright_exit (browser_close (open_session w0)))"
    using ts nav url sel w0 by (auto simp: scrape_tweets_def session_body_def)
  then show "\<exists>ts w'. \<forall>fuel>k. scrape_tweets fuel env name max_tweets w = Some (Inr ts, w')"
    by blast
next
  show "\<forall>fuel tweets seen_texts.
           int (length tweets) < max_tweets \<longrightarrow>
           int (length (fst (scan_blocks (fromisoformat env) max_tweets (blocks_after env k)
                               tweets seen_texts))) < max_tweets \<longrightarrow>
           pagination_loop (Suc fuel) env max_tweets k (height_after env k) tweets seen_texts
             = Some (fst (scan_blocks (fromisoformat env) max_tweets (blocks_after env k)
                            tweets seen_texts))"
    using stall by (auto simp: Let_def split: prod.splits)
qed

theorem stall_terminates_witness:
  "(\<exists>w'. scrape_tweets (Suc (Suc 0))
     \<lparr>goto1_ok = True, goto2_ok = True,
      final_url = ''https://x.com/search?q=from%3Anasa&f=live'',
      page_content = ''<html/>'', selector_found = True,
      blocks_after = (\<lambda>k. if k = 0
         then [Article (Some ''hello'') None (Some (Some ''2024-01-01T00:00:00Z''))]
         else [Article (Some ''hello'') None (Some (Some ''2024-01-01T00:00:00Z'')),
               Article (Some ''world'') None (Some (Some ''2024-01-01T00:00:00Z''))]),
      height_after = (\<lambda>k. if k = 0 then 1000 else 2000),
      fromisoformat = (\<lambda>s. if s = ''2024-01-01T00:00:00+00:00'' then Some 1704067200 else None)\<rparr>
     ''nasa'' 20
     \<lparr>files = [''auth.json'' \<mapsto> JsonText (JObj [(''cookies'', JArr []), (''origins'', JArr [])])],
      written = [], playwright_running = False, browser_open = False\<rparr>
   = Some (Inr [\<lparr>item_content = ''hello'', item_timestamp = 1704067200\<rparr>,
                \<lparr>item_content = ''world'', item_timestamp = 1704067200\<rparr>], w')
   \<and> scrape_tweets 7
     \<lparr>goto1_ok = True, goto2_ok = True,
      final_url = ''https://x.com/search?q=from%3Anasa&f=live'',
      page_content = ''<html/>'', selector_found = True,
      blocks_after = (\<lambda>k. if k = 0
         then [Article (Some ''hello'') None (Some (Some ''2024-01-01T00:00:00Z''))]
         else [Article (Some ''hello'') None (Some (Some ''2024-01-01T00:00:00Z'')),
               Article (Some ''world'') None (Some (Some ''2024-01-01T00:00:00Z''))]),
      height_after = (\<lambda>k. if k = 0 then 1000 else 2000),
      fromisoformat = (\<lambda>s. if s = ''2024-01-01T00:00:00+00:00'' then Some 1704067200 else None)\<rparr>
     ''nasa'' 20
     \<lparr>files = [''auth.json'' \<mapsto> JsonText (JObj [(''cookies'', JArr []), (''origins'', JArr [])])],
      written = [], playwright_running = False, browser_open = False\<rparr>
   = Some (Inr [\<lparr>item_content = ''hello'', item_timestamp = 1704067200\<rparr>,
                \<lparr>item_content = ''world'', item_timestamp = 1704067200\<rparr>], w'))
   \<and> pagination_loop (Suc 0)
     \<lparr>goto1_ok = True, goto2_ok = True,
      final_url = ''https://x.com/search?q=from%3Anasa&f=live'',
      page_content = ''<html/>'', selector_found = True,
      blocks_after = (\<lambda>k. if k = 0
         then [Article (Some ''hello'') None (Some (Some ''2024-01-01T00:00:00Z''))]
         else [Article (Some ''hello'') None (Some (Some ''2024-01-01T00:00:00Z'')),
               Article (Some ''world'') None (Some (Some ''2024-01-01T00:00:00Z''))]),
      height_after = (\<lambda>k. if k = 0 then 1000 else 2000),
      fromisoformat = (\<lambda>s. if s = ''2024-01-01T00:00:00+00:00'' then Some 1704067200 else None)\<rparr>
     20 1 2000 [\<lparr>item_content = ''hello'', item_timestamp = 1704067200\<rparr>] {''hello''}
   = Some [\<lparr>item_content = ''hello'', item_timestamp = 1704067200\<rparr>,
           \<lparr>item_content = ''world'', item_timestamp = 1704067200\<rparr>]"
  (is "(\<exists>w'. scrape_tweets (Suc (Suc 0)) ?E ''nasa'' 20 ?W = Some (Inr ?ts, w') \<and> _)
       \<and> pagination_loop (Suc 0) ?E 20 1 2000 ?one {''hello''} = _")
proof -
  have creds: "fst (load_credentials ?W) = Inr ()"
    by (simp add: load_credentials_def COOKIES_FILE_def)
  have nav: "goto1_ok ?E \<or> goto2_ok ?E" by simp
  have url: "\<not> contains ''login'' (final_url ?E)" "\<not> contains ''challenge'' (final_url ?E)"
    by simp_all
  have sel: "selector_found ?E" by simp
  have stall: "height_after ?E (Suc 1) = height_after ?E 1" by simp
  from stall_terminates [OF creds nav url sel stall, of "''nasa''" 20]
  obtain ts w' where
    all: "\<forall>fuel>1. scrape_tweets fuel ?E ''nasa'' 20 ?W = Some (Inr ts, w')"
    and step: "\<forall>fuel tweets seen_texts.
           int (length tweets) < 20 \<longrightarrow>
           int (length (fst (scan_blocks (fromisoformat ?E) 20 (blocks_after ?E 1)
                               tweets seen_texts))) < 20 \<longrightarrow>
           pagination_loop (Suc fuel) ?E 20 1 (height_after ?E 1) tweets seen_texts
             = Some (fst (scan_blocks (fromisoformat ?E) 20 (blocks_after ?E 1)
                            tweets seen_texts))"
    by blast
  have two: "scrape_tweets (Suc (Suc 0)) ?E ''nasa'' 20 ?W = Some (Inr ts, w')"
    using all by (simp add: numeral_2_eq_2 [symmetric])
  have seven: "scrape_tweets 7 ?E ''nasa'' 20 ?W = Some (Inr ts, w')"
    using all by simp
  have "\<exists>v. scrape_tweets (Suc (Suc 0)) ?E ''nasa'' 20 ?W = Some (Inr ?ts, v)"
    by (simp add: run_defs)
  with two have "ts = ?ts" by auto
  with two seven have whole: "\<exists>w'. scrape_tweets (Suc (Suc 0)) ?E ''nasa'' 20 ?W = Some (Inr ?ts, w')
      \<and> scrape_tweets 7 ?E ''nasa'' 20 ?W = Some (Inr ?ts, w')"
    by blast
  have "int (length ?one) < 20"
    and "int (length (fst (scan_blocks (fromisoformat ?E) 20 (blocks_after ?E 1) ?one {''hello''}))) < 20"
    by (simp_all add: run_defs)
  with step have "pagination_loop (Suc 0) ?E 20 1 (height_after ?E 1) ?one {''hello''}
      = Some (fst (scan_blocks (fromisoformat ?E) 20 (blocks_after ?E 1) ?one {''hello''}))"
    by blast
  then have "pagination_loop (Suc 0) ?E 20 1 2000 ?one {''hello''} = Some ?ts"
    by (simp add: run_defs)
  with whole show ?thesis by blast
qed

subsection \<open>The cookie file\<close>

lemma diag_paths:
  "name @ ''_redirect.html'' \<noteq> COOKIES_FILE"
  "name @ ''_redirect.png'' \<noteq> COOKIES_FILE"
  "name @ ''_no_tweets.html'' \<noteq> COOKIES_FILE"
  "name @ ''_no_tweets.png'' \<noteq> COOKIES_FILE"
proof -
  have "length (name @ s) \<noteq> length COOKIES_FILE" if "length s > 9" for s
    using that by (simp add: COOKIES_FILE_def)
  then have *: "name @ s \<noteq> COOKIES_FILE" if "length s > 9" for s
    using that by metis
  show "name @ ''_redirect.html'' \<noteq> COOKIES_FILE" by (rule *) simp
  show "name @ ''_redirect.png'' \<noteq> COOKIES_FILE" by (rule *) simp
  show "name @ ''_no_tweets.html'' \<noteq> COOKIES_FILE" by (rule *) simp
  show "name @ ''_no_tweets.png'' \<noteq> COOKIES_FILE" by (rule *) simp
qed

lemma session_body_cookie_file:
  assumes "session_body fuel env name m w = Some (r, w')"
  shows "files w' COOKIES_FILE = files w COOKIES_FILE
     \<and> (\<exists>new. written w' = written w @ new \<and> COOKIES_FILE \<notin> set new)"
proof -
  consider (nav) "w' = w"
    | (auth) "w' = browser_close (write_file (name @ ''_redirect.png'') Screenshot
                (write_file (name @ ''_redirect.html'') (HtmlText (page_content env)) w))"
    | (none) "w' = browser_close (write_file (name @ ''_no_tweets.png'') Screenshot
                (write_file (name @ ''_no_tweets.html'') (HtmlText (page_content env)) w))"
    | (completed) "w' = browser_close w"
    using assms by (auto simp: session_body_def Let_def split: if_splits option.splits)
  then show ?thesis
  proof cases
    case nav
    then show ?thesis by simp
  next
    case auth
    then show ?thesis using diag_paths [of name]
      by (simp add: browser_close_def write_file_def)
  next
    case none
    then show ?thesis using diag_paths [of name]
      by (simp add: browser_close_def write_file_def)
  next
    case completed
    then show ?thesis by (simp add: browser_close_def)
  qed
qed

lemma scrape_tweets_after_credentials:
  assumes "load_credentials w = (Inr (), w0)"
    and "scrape_tweets fuel env name m w = Some (r, w')"
  shows "files w' COOKIES_FILE = files w0 COOKIES_FILE
     \<and> (\<exists>new. written w' = written w0 @ new \<and> COOKIES_FILE \<notin> set new)"
proof -
  from assms obtain w1 where
    b: "session_body fuel env name m (open_session w0) = Some (r, w1)" and w': "w' = playwright_exit w1"
    by (auto simp: scrape_tweets_def split: option.splits)
  from session_body_cookie_file [OF b] w' show ?thesis
    by (simp add: playwright_exit_def open_session_def)
qed

lemma load_credentials_written:
  assumes "load_credentials w = (Inr u, w0)"
  shows "written w0 = written w \<or> written w0 = written w @ [COOKIES_FILE]"
    and "playwright_running w0 = playwright_running w" and "browser_open w0 = browser_open w"
    and "\<And>p. p \<noteq> COOKIES_FILE \<Longrightarrow> files w0 p = files w p"
proof -
  from assms consider "w0 = w" | v where "w0 = write_file COOKIES_FILE (JsonText v) w"
    by (auto simp: load_credentials_def split: option.splits sum.splits)
  then have "(written w0 = written w \<or> written w0 = written w @ [COOKIES_FILE])
      \<and> playwright_running w0 = playwright_running w \<and> browser_open w0 = browser_open w
      \<and> (\<forall>p. p \<noteq> COOKIES_FILE \<longrightarrow> files w0 p = files w p)"
    by cases (auto simp: write_file_def)
  then show "written w0 = written w \<or> written w0 = written w @ [COOKIES_FILE]"
    and "playwright_running w0 = playwright_running w" and "browser_open w0 = browser_open w"
    and "\<And>p. p \<noteq> COOKIES_FILE \<Longrightarrow> files w0 p = files w p"
    by blast+
qed

text \<open>
  C6. When the cookie file parses as a bare array, the credential step rewrites it to the
  object with that array under \<^verbatim>\<open>cookies\<close> and an empty \<^verbatim>\<open>origins\<close>, and
  the file holds that object when \<^verbatim>\<open>scrape_tweets\<close> returns or fails. With the
  file in this shape the credential step changes nothing (the rewrite branch is not
  taken) and a run neither changes nor writes the file, so the same holds for every
  later run.
\<close>

theorem credentials_normalised:
  assumes bare: "files w COOKIES_FILE = Some (JsonText (JArr cookies))"
  shows "files (snd (load_credentials w)) COOKIES_FILE
           = Some (JsonText (JObj [(''cookies'', JArr cookies), (''origins'', JArr [])]))
     \<and> (\<forall>fuel env name m r w'.
           scrape_tweets fuel env name m w = Some (r, w') \<longrightarrow>
           files w' COOKIES_FILE
             = Some (JsonText (JObj [(''cookies'', JArr cookies), (''origins'', JArr [])])))
     \<and> (\<forall>w2. files w2 COOKIES_FILE
                 = Some (JsonText (JObj [(''cookies'', JArr cookies), (''origins'', JArr [])])) \<longrightarrow>
           load_credentials w2 = (Inr (), w2)
           \<and> (\<forall>fuel env name m r w3.
                 scrape_tweets fuel env name m w2 = Some (r, w3) \<longrightarrow>
                 files w3 COOKIES_FILE = files w2 COOKIES_FILE
                 \<and> COOKIES_FILE \<notin> set (drop (length (written w2)) (written w3))))"
proof -
  let ?v = "JObj [(''cookies'', JArr cookies), (''origins'', JArr [])]"
  have lc: "load_credentials w = (Inr (), write_file COOKIES_FILE (JsonText ?v) w)"
    using bare by (simp add: load_credentials_def)
  have A: "files (snd (load_credentials w)) COOKIES_FILE = Some (JsonText ?v)"
    by (simp add: lc write_file_def)
  have B: "files w' COOKIES_FILE = Some (JsonText ?v)"
    if "scrape_tweets fuel env name m w = Some (r, w')" for fuel env name m r w'
    using scrape_tweets_after_credentials [OF lc that] by (simp add: write_file_def)
  have C: "load_credentials w2 = (Inr (), w2)
           \<and> (\<forall>fuel env name m r w3.
                 scrape_tweets fuel env name m w2 = Some (r, w3) \<longrightarrow>
                 files w3 COOKIES_FILE = files w2 COOKIES_FILE
                 \<and> COOKIES_FILE \<notin> set (drop (length (written w2)) (written w3)))"
    if f2: "files w2 COOKIES_FILE = Some (JsonText ?v)" for w2
  proof -
    have l2: "load_credentials w2 = (Inr (), w2)"
      using f2 by (simp add: load_credentials_def)
    have "files w3 COOKIES_FILE = files w2 COOKIES_FILE
          \<and> COOKIES_FILE \<notin> set (drop (length (written w2)) (written w3))"
      if "scrape_tweets fuel env name m w2 = Some (r, w3)" for fuel env name m r w3
      using scrape_tweets_after_credentials [OF l2 that] by auto
    with l2 show ?thesis by blast
  qed
  from A B C show ?thesis by blast
qed

theorem credentials_normalised_witness:
  "files (snd (load_credentials
       \<lparr>files = [''auth.json'' \<mapsto> JsonText (JArr [JObj [(''name'', JStr ''a''), (''value'', JStr ''b'')]])],
        written = [], playwright_running = False, browser_open = False\<rparr>)) COOKIES_FILE
     = Some (JsonText (JObj [(''cookies'', JArr [JObj [(''name'', JStr ''a''), (''value'', JStr ''b'')]]),
                             (''origins'', JArr [])]))
   \<and> (\<exists>w'. scrape_tweets 0
         \<lparr>goto1_ok = False, goto2_ok = False, final_url = '''', page_content = '''',
          selector_found = False, blocks_after = (\<lambda>k. []), height_after = (\<lambda>k. 0),
          fromisoformat = (\<lambda>s. None)\<rparr>
         ''nasa'' 20
         \<lparr>files = [''auth.json'' \<mapsto> JsonText (JArr [JObj [(''name'', JStr ''a''), (''value'', JStr ''b'')]])],
          written = [], playwright_running = False, browser_open = False\<rparr>
        = Some (Inl NavigationTimeout, w')
      \<and> files w' COOKIES_FILE
          = Some (JsonText (JObj [(''cookies'', JArr [JObj [(''name'', JStr ''a''), (''value'', JStr ''b'')]]),
                                  (''origins'', JArr [])]))
      \<and> load_credentials w' = (Inr (), w'))"
  (is "files (snd (load_credentials ?W)) COOKIES_FILE = Some (JsonText ?N)
       \<and> (\<exists>w'. scrape_tweets 0 ?E ''nasa'' 20 ?W = _ \<and> _ \<and> _)")
proof -
  let ?C = "[JObj [(''name'', JStr ''a''), (''value'', JStr ''b'')]]"
  have bare: "files ?W COOKIES_FILE = Some (JsonText (JArr ?C))"
    by (simp add: COOKIES_FILE_def)
  note inst = credentials_normalised [OF bare]
  have A: "files (snd (load_credentials ?W)) COOKIES_FILE = Some (JsonText ?N)"
    using inst by blast
  have "\<exists>w'. scrape_tweets 0 ?E ''nasa'' 20 ?W = Some (Inl NavigationTimeout, w')"
    by (simp add: run_defs)
  then obtain w' where run: "scrape_tweets 0 ?E ''nasa'' 20 ?W = Some (Inl NavigationTimeout, w')"
    by blast
  have B: "files w' COOKIES_FILE = Some (JsonText ?N)"
    using inst run by blast
  have C: "load_credentials w' = (Inr (), w')"
    using inst B by blast
  from A run B C show ?thesis by blast
qed

subsection \<open>The login redirect\<close>

text \<open>
  C7. When the credentials are accepted, one of the two navigations succeeds and the
  resolved URL contains \<^verbatim>\<open>login\<close>: the block inside \<^verbatim>\<open>async with\<close> ends with
  the authentication error and the browser already closed by \<^verbatim>\<open>browser.close()\<close>;
  \<^verbatim>\<open>scrape_tweets\<close> fails with that error (so it returns no items); apart from the
  cookie file, this run writes exactly two files, the HTML snapshot and the screenshot,
  both named by the username; and neither the browser nor the driver is left running.
\<close>

theorem auth_challenge:
  assumes creds: "fst (load_credentials w) = Inr ()"
    and nav: "goto1_ok env \<or> goto2_ok env"
    and login: "contains ''login'' (final_url env)"
  shows "\<exists>w1 w'.
       session_body fuel env name max_tweets (open_session (snd (load_credentials w)))
         = Some (Inl AuthChallenge, w1)
     \<and> \<not> browser_open w1
     \<and> scrape_tweets fuel env name max_tweets w = Some (Inl AuthChallenge, w')
     \<and> filter (\<lambda>p. p \<noteq> COOKIES_FILE) (drop (length (written w)) (written w'))
         = [name @ ''_redirect.html'', name @ ''_redirect.png'']
     \<and> files w' (name @ ''_redirect.html'') = Some (HtmlText (page_content env))
     \<and> files w' (name @ ''_redirect.png'') = Some Screenshot
     \<and> \<not> browser_open w' \<and> \<not> playwright_running w'"
proof -
  obtain w0 where w0: "load_credentials w = (Inr (), w0)"
    using creds by (cases "load_credentials w") auto
  define w1 where "w1 = browser_close (write_file (name @ ''_redirect.png'') Screenshot
      (write_file (name @ ''_redirect.html'') (HtmlText (page_content env)) (open_session w0)))"
  have body: "session_body fuel env name max_tweets (open_session w0) = Some (Inl AuthChallenge, w1)"
    using nav login by (auto simp: session_body_def w1_def Let_def)
  have run: "scrape_tweets fuel env name max_tweets w = Some (Inl AuthChallenge, playwright_exit w1)"
    using w0 body by (simp add: scrape_tweets_def)
  have closed: "\<not> browser_open w1"
    by (simp add: w1_def browser_close_def)
  have wr: "written (playwright_exit w1)
              = written w0 @ [name @ ''_redirect.html'', name @ ''_redirect.png'']"
    by (simp add: w1_def playwright_exit_def browser_close_def write_file_def open_session_def)
  have "filter (\<lambda>p. p \<noteq> COOKIES_FILE) (drop (length (written w)) (written (playwright_exit w1)))
          = [name @ ''_redirect.html'', name @ ''_redirect.png'']"
    using load_credentials_written(1) [OF w0] diag_paths(1,2) [of name]
    by (auto simp: wr)
  moreover have "files (playwright_exit w1) (name @ ''_redirect.html'') = Some (HtmlText (page_content env))"
    "files (playwright_exit w1) (name @ ''_redirect.png'') = Some Screenshot"
    by (simp_all add: w1_def playwright_exit_def browser_close_def write_file_def)
  moreover have "\<not> browser_open (playwright_exit w1)" "\<not> playwright_running (playwright_exit w1)"
    by (simp_all add: w1_def playwright_exit_def browser_close_def)
  ultimately show ?thesis
    using body run closed w0 by auto
qed

theorem auth_challenge_witness:
  "\<exists>w'. scrape_tweets 0
      \<lparr>goto1_ok = False, goto2_ok = True, final_url = ''https://x.com/i/flow/login'',
       page_content = ''<html>Sign in</html>'', selector_found = False,
       blocks_after = (\<lambda>k. []), height_after = (\<lambda>k. 0), fromisoformat = (\<lambda>s. None)\<rparr>
      ''nasa'' 20
      \<lparr>files = [''auth.json'' \<mapsto> JsonText (JObj [(''cookies'', JArr []), (''origins'', JArr [])])],
       written = [], playwright_running = False, browser_open = False\<rparr>
     = Some (Inl AuthChallenge, w')
   \<and> written w' = [''nasa_redirect.html'', ''nasa_redirect.png'']
   \<and> files w' ''nasa_redirect.html'' = Some (HtmlText ''<html>Sign in</html>'')
   \<and> files w' ''nasa_redirect.png'' = Some Screenshot
   \<and> \<not> browser_open w'"
  (is "\<exists>w'. scrape_tweets 0 ?E ''nasa'' 20 ?W = _ \<and> _")
proof -
  have creds: "fst (load_credentials ?W) = Inr ()"
    by (simp add: load_credentials_def COOKIES_FILE_def)
  have nav: "goto1_ok ?E \<or> goto2_ok ?E" by simp
  have login: "contains ''login'' (final_url ?E)" by simp
  from auth_challenge [OF creds nav login, of 0 "''nasa''" 20]
  obtain w' where
    run: "scrape_tweets 0 ?E ''nasa'' 20 ?W = Some (Inl AuthChallenge, w')"
    and wr: "filter (\<lambda>p. p \<noteq> COOKIES_FILE) (drop (length (written ?W)) (written w'))
               = [''nasa'' @ ''_redirect.html'', ''nasa'' @ ''_redirect.png'']"
    and f: "files w' (''nasa'' @ ''_redirect.html'') = Some (HtmlText (page_content ?E))"
      "files w' (''nasa'' @ ''_redirect.png'') = Some Screenshot"
    and cl: "\<not> browser_open w'"
    by blast
  have "\<exists>v. scrape_tweets 0 ?E ''nasa'' 20 ?W = Some (Inl AuthChallenge, v)
          \<and> written v = [''nasa_redirect.html'', ''nasa_redirect.png'']"
    by (simp add: run_defs)
  with run have "written w' = [''nasa_redirect.html'', ''nasa_redirect.png'']" by auto
  with run f cl show ?thesis by auto
qed

subsection \<open>Release of the session\<close>



section \<open>Properties of the cycle\<close>

text \<open>
  C5. A cycle over the three accounts a, b, c that starts at time 0, with the scheduler
  running at 60 and at 120 seconds: a and b are both submitted at time 0, c is submitted
  at 60 and once more at 120. The offsets are not 0, 60, 120, and c is submitted more than
  once in the cycle.
\<close>

theorem stagger_three_accounts:
  "submitted (run_scheduler [60, 120]
     (auto_fetch_all
        \<lparr>accounts_table = [\<lparr>acc_id = 1, username = ''a''\<rparr>,
                           \<lparr>acc_id = 2, username = ''b''\<rparr>,
                           \<lparr>acc_id = 3, username = ''c''\<rparr>],
         tweets_table = []\<rparr>
        0 \<lparr>submitted = [], jobs = []\<rparr>))
   = [(0, ''a''), (0, ''b''), (60, ''c''), (120, ''c'')]"
  by (simp add: run_scheduler_def run_pending_def run_job_def auto_fetch_all_def
      scrape_accounts_sequentially_def add_job_def submit_def Let_def)

end
